theory Spec2Isabelle
  imports Complex_Main "HOL-Library.Word" "HOL-Library.Log_Nat" "HOL-Library.Sublist"
begin

section \<open>Strings\<close>

text \<open>
  A JavaScript string is a sequence of UTF-16 code units. Literals of the source that are plain
  ASCII are written with \<open>lit\<close>; the three non-ASCII characters of the source (the middle dot
  U+00B7, the arrow U+2192 and the ellipsis U+2026) are written as code units.
\<close>

type_synonym jsstring = "16 word list"

definition lit :: "string \<Rightarrow> jsstring" where
  "lit cs = map (\<lambda>ch. of_nat (of_char ch)) cs"

definition middot :: jsstring where
  "middot = [0xB7]"

definition rarrow :: jsstring where
  "rarrow = [0x2192]"

definition hellip :: jsstring where
  "hellip = [0x2026]"

definition includes' :: "jsstring \<Rightarrow> jsstring \<Rightarrow> bool" where
  \<comment> \<open>\<open>s.includes(sub)\<close>: \<open>sub\<close> occurs in \<open>s\<close> as a contiguous run of code units\<close>
  "includes' s sub = sublist sub s"

definition isWhiteSpace :: "16 word \<Rightarrow> bool" where
  \<comment> \<open>the white space and line terminator code points of ECMAScript\<close>
  "isWhiteSpace u \<longleftrightarrow>
     u \<in> set [0x09, 0x0A, 0x0B, 0x0C, 0x0D, 0x20, 0xA0, 0x1680,
               0x2000, 0x2001, 0x2002, 0x2003, 0x2004, 0x2005, 0x2006, 0x2007, 0x2008, 0x2009, 0x200A,
               0x2028, 0x2029, 0x202F, 0x205F, 0x3000, 0xFEFF]"

definition trim :: "jsstring \<Rightarrow> jsstring" where
  "trim s = rev (dropWhile isWhiteSpace (rev (dropWhile isWhiteSpace s)))"

section \<open>Numbers\<close>

text \<open>
  A JavaScript number is an IEEE 754 double: not-a-number, the two infinities, or a finite value,
  which is a rational. The two zeros are identified: no operation modelled here tells them apart
  (\<open>===\<close> holds between them, \<open>toFixed\<close> prints both as \<open>0.00\<close>). Arithmetic on finite
  values is exact arithmetic followed by rounding to the nearest double, ties to even.
\<close>

datatype number = NaN | PosInf | NegInf | Fin rat

definition ilog2 :: "rat \<Rightarrow> int" where
  \<comment> \<open>for \<open>a > 0\<close>: the exponent \<open>e\<close> with \<open>2^e \<le> a < 2^(e+1)\<close>\<close>
  "ilog2 a =
     (let (p, q) = quotient_of a;
          d = bitlen p - bitlen q
      in if power_int 2 d \<le> a then d else d - 1)"

definition roundTiesToEven :: "rat \<Rightarrow> int" where
  "roundTiesToEven r =
     (let n = \<lfloor>r\<rfloor>; d = r - of_int n
      in if d < 1 / 2 then n else if 1 / 2 < d then n + 1 else if even n then n else n + 1)"

definition round_double :: "rat \<Rightarrow> number" where
  \<comment> \<open>binary64: 53 significant bits, least normal exponent -1022, overflow from \<open>2^1024\<close>\<close>
  "round_double v =
     (if v = 0 then Fin 0
      else
        let a = \<bar>v\<bar>;
            e = max (ilog2 a) (- 1022);
            q = power_int 2 (e - 52);
            w = of_int (roundTiesToEven (a / q)) * q
        in if 2 ^ 1024 \<le> w then (if v < 0 then NegInf else PosInf)
           else Fin (if v < 0 then - w else w))"

fun mul :: "number \<Rightarrow> number \<Rightarrow> number" where
  "mul (Fin a) (Fin b) = round_double (a * b)"
| "mul NaN _ = NaN"
| "mul _ NaN = NaN"
| "mul PosInf (Fin b) = (if b = 0 then NaN else if 0 < b then PosInf else NegInf)"
| "mul NegInf (Fin b) = (if b = 0 then NaN else if 0 < b then NegInf else PosInf)"
| "mul (Fin a) PosInf = (if a = 0 then NaN else if 0 < a then PosInf else NegInf)"
| "mul (Fin a) NegInf = (if a = 0 then NaN else if 0 < a then NegInf else PosInf)"
| "mul PosInf PosInf = PosInf"
| "mul PosInf NegInf = NegInf"
| "mul NegInf PosInf = NegInf"
| "mul NegInf NegInf = PosInf"

fun Math_round :: "number \<Rightarrow> number" where
  \<comment> \<open>the integer closest to the argument, the larger one of two equally close\<close>
  "Math_round (Fin v) = Fin (of_int \<lfloor>v + 1 / 2\<rfloor>)"
| "Math_round NaN = NaN"
| "Math_round PosInf = PosInf"
| "Math_round NegInf = NegInf"

definition digit :: "nat \<Rightarrow> 16 word" where
  "digit d = 0x30 + of_nat d"

fun dec :: "nat \<Rightarrow> jsstring" where
  "dec n = (if n < 10 then [digit n] else dec (n div 10) @ [digit (n mod 10)])"

declare dec.simps [simp del]

definition place_point :: "nat \<Rightarrow> jsstring \<Rightarrow> jsstring" where
  \<comment> \<open>the last \<open>f\<close> digits become the fraction; zeros are put in front when there are not
      more than \<open>f\<close> digits\<close>
  "place_point f ds =
     (if f = 0 then ds
      else
        let k = length ds;
            zs = (if k \<le> f then replicate (f + 1 - k) (digit 0) @ ds else ds);
            k' = (if k \<le> f then f + 1 else k)
        in take (k' - f) zs @ lit ''.'' @ drop (k' - f) zs)"

definition nearest_digits :: "rat \<Rightarrow> nat \<Rightarrow> nat \<Rightarrow> nat option" where
  \<comment> \<open>an integer \<open>s\<close> for which \<open>s * 10^(n - k)\<close> is read as the double \<open>v\<close>, when there is
      one: it is one of the two neighbours of \<open>v / 10^(n - k)\<close>, the nearer one when both are
      read as \<open>v\<close>, the even one when they are equally near\<close>
  "nearest_digits v n k =
     (let p = 10 ^ (n - k);
          lo = nat \<lfloor>v / p\<rfloor>;
          hi = lo + 1;
          below = v - of_nat lo * p;
          above = of_nat hi * p - v
      in if round_double (of_nat lo * p) = Fin v
         then (if round_double (of_nat hi * p) = Fin v
               then (if below < above then Some lo
                     else if above < below then Some hi
                     else if even lo then Some lo else Some hi)
               else Some lo)
         else if round_double (of_nat hi * p) = Fin v then Some hi
         else None)"

fun shortest_digits :: "rat \<Rightarrow> nat \<Rightarrow> nat list \<Rightarrow> nat \<times> nat" where
  \<comment> \<open>the first digit count of the list that has such an integer, with the integer. Seventeen
      digits tell any two doubles apart, so for a double the search through 1 to 17 ends before
      the list does.\<close>
  "shortest_digits v n [] = (17, nat \<lfloor>v / 10 ^ (n - 17)\<rfloor>)"
| "shortest_digits v n (k # ks) =
     (case nearest_digits v n k of Some s \<Rightarrow> (k, s) | None \<Rightarrow> shortest_digits v n ks)"

definition Number_toString :: "rat \<Rightarrow> jsstring" where
  \<comment> \<open>\<open>Number::toString\<close> in radix 10 on a finite value from \<open>10^21\<close> on, the only values
      that \<open>toFixed\<close> passes to it: the fewest digits \<open>s\<close> such that \<open>s * 10^(n - k)\<close> is read
      as the value, printed in exponent notation. \<open>n0\<close> is the number of digits of the integer
      part; the upper neighbour may be \<open>10^k\<close>, which is the digit 1 with one more place.\<close>
  "Number_toString v =
     (let n0 = length (dec (nat \<lfloor>v\<rfloor>));
          (k, s0) = shortest_digits v n0 [1..<18];
          n = (if s0 = 10 ^ k then n0 + 1 else n0);
          s = (if s0 = 10 ^ k then 10 ^ (k - 1) else s0);
          ds = dec s
      in (if k = 1 then ds else take 1 ds @ lit ''.'' @ drop 1 ds) @ lit ''e+'' @ dec (n - 1))"

definition toFixed :: "number \<Rightarrow> nat \<Rightarrow> jsstring" where
  \<comment> \<open>\<open>Number.prototype.toFixed\<close> with \<open>f\<close> fraction digits: from \<open>10^21\<close> on the number is
      printed as \<open>Number::toString\<close> prints it\<close>
  "toFixed v f =
     (case v of
        NaN \<Rightarrow> lit ''NaN''
      | PosInf \<Rightarrow> lit ''Infinity''
      | NegInf \<Rightarrow> lit ''-Infinity''
      | Fin v0 \<Rightarrow>
          let s = (if v0 < 0 then lit ''-'' else []);
              a = \<bar>v0\<bar>
          in if 10 ^ 21 \<le> a then s @ Number_toString a
             else
               let n = nat \<lfloor>a * 10 ^ f + 1 / 2\<rfloor>
               in s @ place_point f (dec n))"

section \<open>Diagram data\<close>

datatype kind = KindX | KindY | KindZ

record DagNode =
  id' :: jsstring
  label :: jsstring
  kind :: kind
  x :: int
  y :: int

record DagEdge =
  from' :: jsstring
  to :: jsstring

section \<open>The analysis service's payloads\<close>

text \<open>
  The response arrives as JSON, so a field that the interface declares may be missing at run time.
  The fields whose absence the component's code checks (\<open>Template\<close>, \<open>Z\<close>, \<open>Edges\<close>) or
  that the interface declares optional (\<open>Source\<close>, \<open>Details\<close>) are options; \<open>null\<close> and
  \<open>undefined\<close> are both \<open>None\<close>. \<open>Rung\<close> is the string that arrived.
\<close>

record CausalTemplate =
  X :: jsstring
  Y :: jsstring
  Z :: "jsstring list option"
  Edges :: "(jsstring \<times> jsstring) list option"
  Note :: jsstring

record Estimand =
  Identifiable :: bool
  Expression :: jsstring
  Reason :: jsstring

record Trust =
  m :: number
  c :: number
  Source :: "jsstring option"
  Details :: "jsstring option"

record AnalyzeResponsePayload =
  TextClaim :: jsstring
  Domain' :: jsstring
  Rung :: jsstring
  Template :: "CausalTemplate option"
  Estimand :: Estimand
  SourceTrust :: "Trust list"
  AggregatedTrust :: Trust
  Explanation :: jsstring

record SourcePayload =
  Title :: "jsstring option"
  Url :: "jsstring option"
  Type :: "jsstring option"
  SampleSize :: "number option"
  Year :: "number option"
  PeerReviewed :: "bool option"

record AnalyzeRequestPayload =
  TextClaim :: jsstring
  Domain' :: jsstring
  Sources :: "SourcePayload list"

section \<open>The component\<close>

record AppComponent =
  title :: jsstring
  claim :: jsstring
  domain :: jsstring
  sourceType :: jsstring
  sourceUrl :: jsstring
  sourceTitle :: jsstring
  sourceYear :: "number option"
  sampleSize :: "number option"
  loading :: bool
  statusText :: jsstring
  backendStatus :: jsstring
  result :: "AnalyzeResponsePayload option"

subsection \<open>Diagram helpers\<close>

definition zNode :: "nat \<Rightarrow> jsstring \<Rightarrow> DagNode" where
  \<comment> \<open>the callback of \<open>zs.forEach\<close>; \<open>topY = 30\<close>, \<open>bottomY = 150\<close>. The coordinates are
      integers far below \<open>2^53\<close> (an array index is below \<open>2^32\<close>), where double arithmetic
      is exact, so they are integers here.\<close>
  "zNode index z =
     (let topY = 30; bottomY = 150;
          isTop = (index mod 2 = 0);
          rowIndex = index div 2;
          xBase = 80 + int rowIndex * 80
      in \<lparr>id' = z, label = lit ''Z: '' @ z, kind = KindZ, x = xBase,
          y = (if isTop then topY else bottomY)\<rparr>)"

definition dagNodes :: "AppComponent \<Rightarrow> DagNode list" where
  "dagNodes this =
     (case (case result this of None \<Rightarrow> None | Some r \<Rightarrow> Template r) of
        None \<Rightarrow> []
      | Some tpl \<Rightarrow>
          let nodes = [];
              nodes = nodes @ [\<lparr>id' = X tpl, label = lit ''X: '' @ X tpl, kind = KindX, x = 80, y = 90\<rparr>];
              nodes = nodes @ [\<lparr>id' = Y tpl, label = lit ''Y: '' @ Y tpl, kind = KindY, x = 260, y = 90\<rparr>];
              zs = (case Z tpl of None \<Rightarrow> [] | Some zs \<Rightarrow> zs)
          in foldl (\<lambda>nodes (index, z). nodes @ [zNode index z]) nodes (enumerate 0 zs))"

definition dagEdges :: "AppComponent \<Rightarrow> DagEdge list" where
  "dagEdges this =
     (case (case result this of None \<Rightarrow> None | Some r \<Rightarrow> Template r) of
        None \<Rightarrow> []
      | Some tpl \<Rightarrow>
          (case Edges tpl of
             None \<Rightarrow> []
           | Some es \<Rightarrow> map (\<lambda>(from, to). \<lparr>from' = from, to = to\<rparr>) es))"

definition getNodeFor :: "AppComponent \<Rightarrow> jsstring \<Rightarrow> DagNode option" where
  "getNodeFor this name = find (\<lambda>n. id' n = name) (dagNodes this)"

subsection \<open>Ladder rung\<close>

definition rungLabel :: "AppComponent \<Rightarrow> jsstring" where
  "rungLabel this =
     (case result this of
        None \<Rightarrow> lit ''L1 '' @ middot @ lit '' Association''
      | Some r \<Rightarrow>
          let rung = Rung r
          in if rung = lit ''L2'' then lit ''L2 '' @ middot @ lit '' Intervention''
             else if rung = lit ''L3'' then lit ''L3 '' @ middot @ lit '' Counterfactual''
             else lit ''L1 '' @ middot @ lit '' Association'')"

definition rungClass :: "AppComponent \<Rightarrow> jsstring" where
  "rungClass this =
     (case result this of
        None \<Rightarrow> lit ''badge-rung-l1''
      | Some r \<Rightarrow>
          if Rung r = lit ''L2'' then lit ''badge-rung-l2''
          else if Rung r = lit ''L3'' then lit ''badge-rung-l3''
          else lit ''badge-rung-l1'')"

subsection \<open>Trust display\<close>

definition trustPercent :: "AppComponent \<Rightarrow> number" where
  "trustPercent this =
     (case result this of
        None \<Rightarrow> Fin 0
      | Some r \<Rightarrow> Math_round (mul (m (AggregatedTrust r)) (Fin 100)))"

definition confPercent :: "AppComponent \<Rightarrow> number" where
  "confPercent this =
     (case result this of
        None \<Rightarrow> Fin 0
      | Some r \<Rightarrow> Math_round (mul (c (AggregatedTrust r)) (Fin 100)))"

definition trustHint :: "AppComponent \<Rightarrow> jsstring" where
  \<comment> \<open>\<open>Details || ''\<close> and \<open>Details ?? ''\<close> both give the empty string for a missing
      \<open>Details\<close> and the string itself otherwise (the only falsy string is the empty one)\<close>
  "trustHint this =
     (case result this of
        None \<Rightarrow>
          lit ''No sources provided '' @ middot
            @ lit '' T(m, c) defaults to (0, 0) = complete uncertainty.''
      | Some r \<Rightarrow>
          let agg = AggregatedTrust r
          in if m agg = Fin 0 \<and> c agg = Fin 0
                \<and> includes' (case Details agg of None \<Rightarrow> [] | Some d \<Rightarrow> d) (lit ''no sources'')
             then lit ''No sources provided '' @ middot @ lit '' T(m, c) = (0, 0) '' @ rarrow
                    @ lit '' complete uncertainty about evidence.''
             else lit ''Aggregated trust T(m, c) = ('' @ toFixed (m agg) 2 @ lit '', ''
                    @ toFixed (c agg) 2 @ lit '') '' @ middot @ lit '' ''
                    @ (case Details agg of None \<Rightarrow> [] | Some d \<Rightarrow> d))"

subsection \<open>Running an analysis\<close>

text \<open>
  \<open>runAnalysis\<close> returns the component after its synchronous part together with the request it
  hands to the analysis service, \<open>None\<close> when it sends none. The service answers a request
  later through one of the two handlers of the subscription, \<open>runAnalysis_next\<close> or
  \<open>runAnalysis_error\<close>. The error handler also logs its argument to the console, which is no
  part of the component.
\<close>

definition runAnalysis :: "AppComponent \<Rightarrow> AppComponent \<times> AnalyzeRequestPayload option" where
  "runAnalysis this =
     (let trimmed = trim (claim this)
      in if trimmed = []
         then (this\<lparr>statusText := lit ''Please enter a claim before running analysis.''\<rparr>, None)
         else
           let sources =
                 (if trim (sourceUrl this) \<noteq> []
                  then [\<lparr>Title = (if trim (sourceTitle this) = [] then None
                                  else Some (trim (sourceTitle this))),
                         Url = Some (trim (sourceUrl this)),
                         Type = (if sourceType this = [] then None else Some (sourceType this)),
                         SampleSize = sampleSize this,
                         Year = sourceYear this,
                         PeerReviewed = Some (sourceType this = lit ''peer-reviewed'')\<rparr>]
                  else []);
               domainPayload = (if domain this = lit ''auto'' then lit ''auto'' else domain this);
               payload = \<lparr>TextClaim = trimmed, Domain' = domainPayload, Sources = sources\<rparr>
           in (this\<lparr>loading := True, statusText := lit ''Analyzing claim'' @ hellip\<rparr>,
               Some payload))"

definition runAnalysis_next :: "AnalyzeResponsePayload \<Rightarrow> AppComponent \<Rightarrow> AppComponent" where
  "runAnalysis_next res this =
     this\<lparr>result := Some res, statusText := lit ''Analysis complete.'',
          backendStatus := lit ''connected'', loading := False\<rparr>"

definition runAnalysis_error :: "'e \<Rightarrow> AppComponent \<Rightarrow> AppComponent" where
  "runAnalysis_error err this =
     this\<lparr>statusText := lit ''Error during analysis. Check backend.'',
          backendStatus := lit ''error'', loading := False\<rparr>"

definition initial :: AppComponent where
  \<comment> \<open>the field initialisers of the class\<close>
  "initial =
     \<lparr>title = lit ''CausalClaim Guard'', claim = [], domain = lit ''auto'', sourceType = [],
      sourceUrl = [], sourceTitle = [], sourceYear = None, sampleSize = None, loading = False,
      statusText = lit ''Idle '' @ middot @ lit '' waiting for a claim'',
      backendStatus = lit ''connected'', result = None\<rparr>"

section \<open>Notions used in the statements\<close>

definition zlist :: "CausalTemplate \<Rightarrow> jsstring list" where
  \<comment> \<open>the covariates of a template, none when \<open>Z\<close> is missing\<close>
  "zlist tpl = (case Z tpl of None \<Rightarrow> [] | Some zs \<Rightarrow> zs)"

definition position :: "DagNode \<Rightarrow> int \<times> int" where
  "position n = (x n, y n)"

definition slot :: "nat \<Rightarrow> int \<times> int" where
  \<comment> \<open>where the claims place the covariate of index \<open>i\<close>\<close>
  "slot i = (80 + int (i div 2) * 80, if even i then 30 else 150)"

definition rung_of :: "AppComponent \<Rightarrow> jsstring option" where
  \<comment> \<open>the rung of the current result, if there is a result\<close>
  "rung_of this = (case result this of None \<Rightarrow> None | Some r \<Rightarrow> Some (Rung r))"


definition details_text :: "Trust \<Rightarrow> jsstring" where
  \<comment> \<open>the details of a trust score, the empty string when there are none\<close>
  "details_text agg = (case Details agg of None \<Rightarrow> [] | Some d \<Rightarrow> d)"

definition no_sources :: "Trust \<Rightarrow> bool" where
  \<comment> \<open>the trust is exactly (0, 0) and its details contain the words "no sources"\<close>
  "no_sources agg \<longleftrightarrow>
     m agg = Fin 0 \<and> c agg = Fin 0 \<and> includes' (details_text agg) (lit ''no sources'')"

definition digits_value :: "jsstring \<Rightarrow> nat" where
  \<comment> \<open>the number that a string of decimal digits denotes\<close>
  "digits_value ds = foldl (\<lambda>a u. 10 * a + unat (u - 0x30)) 0 ds"

definition two_places :: "rat \<Rightarrow> jsstring" where
  \<comment> \<open>a value rounded to two decimal places, a half away from zero: the sign, the integer
      part in decimal digits, a point, and exactly two digits\<close>
  "two_places v =
     (let n = nat \<lfloor>\<bar>v\<bar> * 100 + 1 / 2\<rfloor>
      in (if v < 0 then lit ''-'' else []) @ dec (n div 100) @ lit ''.''
           @ [digit (n div 10 mod 10), digit (n mod 10)])"

definition is_digit :: "16 word \<Rightarrow> bool" where
  "is_digit u \<longleftrightarrow> 0x30 \<le> u \<and> u \<le> 0x39"

definition two_decimals :: "jsstring \<Rightarrow> bool" where
  \<comment> \<open>the shape of a number printed with two decimal places: an optional minus sign, one or
      more digits, a point, two digits\<close>
  "two_decimals s \<longleftrightarrow>
     (let t = (if s \<noteq> [] \<and> hd s = 0x2D then tl s else s); n = length t
      in 4 \<le> n \<and> t ! (n - 3) = 0x2E \<and> list_all is_digit (take (n - 3) t)
           \<and> list_all is_digit (drop (n - 2) t))"

section \<open>Example states\<close>

definition example_template :: CausalTemplate where
  "example_template =
     \<lparr>X = lit ''coffee'', Y = lit ''sleep quality'',
      Z = Some [lit ''age'', lit ''stress'', lit ''exercise''],
      Edges = Some [(lit ''coffee'', lit ''sleep quality''), (lit ''age'', lit ''coffee''),
                    (lit ''age'', lit ''coffee'')],
      Note = []\<rparr>"

definition example_result :: "number \<Rightarrow> number \<Rightarrow> jsstring option \<Rightarrow> jsstring \<Rightarrow> AnalyzeResponsePayload" where
  \<comment> \<open>a response with the given aggregated trust and rung\<close>
  "example_result bm cf ds rg =
     \<lparr>AnalyzeResponsePayload.TextClaim = lit ''Does coffee cause better sleep?'',
      AnalyzeResponsePayload.Domain' = lit ''health'', Rung = rg,
      Template = Some example_template,
      Estimand = \<lparr>Identifiable = True, Expression = [], Reason = []\<rparr>,
      SourceTrust = [],
      AggregatedTrust = \<lparr>m = bm, c = cf, Source = None, Details = ds\<rparr>,
      Explanation = []\<rparr>"

definition example_state :: "number \<Rightarrow> number \<Rightarrow> jsstring option \<Rightarrow> jsstring \<Rightarrow> AppComponent" where
  "example_state bm cf ds rg = initial\<lparr>result := Some (example_result bm cf ds rg)\<rparr>"

definition other_template :: CausalTemplate where
  \<comment> \<open>as many covariates as \<open>example_template\<close>, under other names, and no edge list\<close>
  "other_template =
     \<lparr>X = lit ''tea'', Y = lit ''alertness'',
      Z = Some [lit ''income'', lit ''season'', lit ''weight''], Edges = None, Note = lit ''n''\<rparr>"

definition other_state :: AppComponent where
  "other_state =
     initial\<lparr>claim := lit ''Does tea keep you alert?'', loading := True,
       result := Some ((example_result (Fin 1) (Fin 1) None (lit ''L2''))
                         \<lparr>Template := Some other_template\<rparr>)\<rparr>"

section \<open>Facts about the example states\<close>

lemma ex_result: "result (example_state bm cf ds rg) = Some (example_result bm cf ds rg)"
  by (simp add: example_state_def)

lemma ex_template: "Template (example_result bm cf ds rg) = Some example_template"
  by (simp add: example_result_def)

section \<open>Diagram layout\<close>

lemma foldl_push:
  "foldl (\<lambda>nodes (index, z). nodes @ [f index z]) acc ps = acc @ map (\<lambda>(index, z). f index z) ps"
  by (induction ps arbitrary: acc) auto

lemma dagNodes_eq:
  assumes "result this = Some r" and "Template r = Some tpl"
  shows "dagNodes this =
           \<lparr>id' = X tpl, label = lit ''X: '' @ X tpl, kind = KindX, x = 80, y = 90\<rparr>
         # \<lparr>id' = Y tpl, label = lit ''Y: '' @ Y tpl, kind = KindY, x = 260, y = 90\<rparr>
         # map (\<lambda>(index, z). zNode index z) (enumerate 0 (zlist tpl))"
  using assms by (simp add: dagNodes_def zlist_def foldl_push)

lemma dagNodes_no_template:
  "(case result this of None \<Rightarrow> None | Some r \<Rightarrow> Template r) = None \<Longrightarrow> dagNodes this = []"
  by (simp add: dagNodes_def)

text \<open>
  C1. For a result whose template has \<open>k\<close> covariates, \<open>dagNodes\<close> returns \<open>k + 2\<close> nodes in
  the order X, Y, Z0, Z1, ...: the treatment at (80, 90), the outcome at (260, 90), and the
  covariate of index \<open>i\<close> on the top row (\<open>y = 30\<close>) when \<open>i\<close> is even and on the bottom row
  (\<open>y = 150\<close>) when it is odd, at \<open>x = 80 + (i div 2) * 80\<close>.
\<close>

theorem dagNodes_layout:
  assumes "result this = Some r" and "Template r = Some tpl"
  shows "length (dagNodes this) = length (zlist tpl) + 2
       \<and> dagNodes this ! 0 = \<lparr>id' = X tpl, label = lit ''X: '' @ X tpl, kind = KindX, x = 80, y = 90\<rparr>
       \<and> dagNodes this ! 1 = \<lparr>id' = Y tpl, label = lit ''Y: '' @ Y tpl, kind = KindY, x = 260, y = 90\<rparr>
       \<and> (\<forall>i < length (zlist tpl).
             dagNodes this ! (i + 2) =
               \<lparr>id' = zlist tpl ! i, label = lit ''Z: '' @ zlist tpl ! i, kind = KindZ,
                x = 80 + int (i div 2) * 80, y = (if even i then 30 else 150)\<rparr>)"
proof -
  note eq = dagNodes_eq [OF assms]
  have len: "length (dagNodes this) = length (zlist tpl) + 2"
    by (simp add: eq)
  have zs: "dagNodes this ! (i + 2) =
               \<lparr>id' = zlist tpl ! i, label = lit ''Z: '' @ zlist tpl ! i, kind = KindZ,
                x = 80 + int (i div 2) * 80, y = (if even i then 30 else 150)\<rparr>"
    if "i < length (zlist tpl)" for i
    using that by (simp add: eq nth_enumerate_eq zNode_def even_iff_mod_2_eq_zero)
  show ?thesis
    using len zs by (simp add: eq)
qed

theorem dagNodes_layout_witness:
  "length (dagNodes (example_state (Fin 0) (Fin 0) None [])) = 5
   \<and> map position (dagNodes (example_state (Fin 0) (Fin 0) None []))
       = [(80, 90), (260, 90), (80, 30), (80, 150), (160, 30)]
   \<and> map kind (dagNodes (example_state (Fin 0) (Fin 0) None [])) = [KindX, KindY, KindZ, KindZ, KindZ]"
proof -
  let ?s = "example_state (Fin 0) (Fin 0) None []"
  have k: "length (zlist example_template) = 3"
    by (simp add: zlist_def example_template_def)
  note t = dagNodes_layout [OF ex_result ex_template, of "Fin 0" "Fin 0" None "[]"]
  from t k have len: "length (dagNodes ?s) = 5"
    by simp
  have n0: "position (dagNodes ?s ! 0) = (80, 90)" "kind (dagNodes ?s ! 0) = KindX"
    using t by (simp_all add: position_def)
  have n1: "position (dagNodes ?s ! 1) = (260, 90)" "kind (dagNodes ?s ! 1) = KindY"
    using t by (simp_all add: position_def)
  have zs: "\<forall>i<3. position (dagNodes ?s ! (i + 2)) = (80 + int (i div 2) * 80, if even i then 30 else 150)
               \<and> kind (dagNodes ?s ! (i + 2)) = KindZ"
    using t k by (simp add: position_def)
  have n2: "position (dagNodes ?s ! 2) = (80, 30)" "kind (dagNodes ?s ! 2) = KindZ"
    using zs [rule_format, of 0] by (simp_all add: eval_nat_numeral)
  have n3: "position (dagNodes ?s ! 3) = (80, 150)" "kind (dagNodes ?s ! 3) = KindZ"
    using zs [rule_format, of 1] by (simp_all add: eval_nat_numeral)
  have n4: "position (dagNodes ?s ! 4) = (160, 30)" "kind (dagNodes ?s ! 4) = KindZ"
    using zs [rule_format, of 2] by (simp_all add: eval_nat_numeral)
  have five: "xs = [xs ! 0, xs ! 1, xs ! 2, xs ! 3, xs ! 4]" if "length xs = 5" for xs :: "DagNode list"
    using that by (auto simp: list_eq_iff_nth_eq less_Suc_eq numeral_eq_Suc nth_Cons')
  have "map position (dagNodes ?s) = map position [dagNodes ?s ! 0, dagNodes ?s ! 1, dagNodes ?s ! 2, dagNodes ?s ! 3, dagNodes ?s ! 4]"
    using five [OF len] by simp
  moreover have "map kind (dagNodes ?s) = map kind [dagNodes ?s ! 0, dagNodes ?s ! 1, dagNodes ?s ! 2, dagNodes ?s ! 3, dagNodes ?s ! 4]"
    using five [OF len] by simp
  ultimately show ?thesis
    using len n0 n1 n2 n3 n4 by simp
qed

lemma position_zNode: "position (zNode i z) = slot i"
  by (simp add: position_def zNode_def slot_def even_iff_mod_2_eq_zero Let_def)

lemma map_position_enumerate:
  "map (\<lambda>(index, z). position (zNode index z)) (enumerate n zs) = map slot [n..<n + length zs]"
proof (induction zs arbitrary: n)
  case Nil
  show ?case by simp
next
  case (Cons z zs)
  have "[n..<n + length (z # zs)] = n # [Suc n..<Suc n + length zs]"
    by (subst upt_rec) simp
  then show ?case
    using Cons [of "Suc n"] by (simp add: position_zNode)
qed

lemma positions_dagNodes:
  assumes "result this = Some r" and "Template r = Some tpl"
  shows "map position (dagNodes this) = (80, 90) # (260, 90) # map slot [0..<length (zlist tpl)]"
  using map_position_enumerate [of 0 "zlist tpl"]
  by (simp add: dagNodes_eq [OF assms] position_def comp_def case_prod_unfold)

lemma slot_inj: "slot i = slot j \<Longrightarrow> i = j"
proof -
  assume a: "slot i = slot j"
  then have d: "i div 2 = j div 2"
    by (simp add: slot_def)
  from a have e: "even i = even j"
    by (auto simp: slot_def split: if_splits)
  from d e show "i = j"
    by presburger
qed

text \<open>
  C5. The nodes that \<open>dagNodes\<close> returns lie at pairwise distinct points, whatever the state and
  however many covariates the template has.
\<close>

theorem dagNodes_positions_distinct: "distinct (map position (dagNodes this))"
proof (cases "case result this of None \<Rightarrow> None | Some r \<Rightarrow> Template r")
  case None
  then show ?thesis
    by (simp add: dagNodes_no_template)
next
  case (Some tpl)
  then obtain r where r: "result this = Some r" "Template r = Some tpl"
    by (auto split: option.splits)
  have inj: "inj_on slot (set [0..<length (zlist tpl)])"
    by (rule inj_onI) (rule slot_inj)
  have d: "distinct (map slot [0..<length (zlist tpl)])"
    using inj by (simp add: distinct_map)
  have a1: "(80, 90) \<notin> set (map slot [0..<length (zlist tpl)])"
    by (auto simp: slot_def split: if_splits)
  have a2: "(260, 90) \<notin> set (map slot [0..<length (zlist tpl)])"
    by (auto simp: slot_def split: if_splits)
  show ?thesis
    using d a1 a2 by (simp add: positions_dagNodes [OF r])
qed

text \<open>
  C6. \<open>dagEdges\<close> returns one edge for each pair of \<open>Edges\<close>, with the pair's two names, in the
  order of \<open>Edges\<close>: as many edges as pairs, and a pair that occurs twice gives two edges.
\<close>

theorem dagEdges_verbatim:
  assumes "result this = Some r" and "Template r = Some tpl" and "Edges tpl = Some es"
  shows "length (dagEdges this) = length es
       \<and> map (\<lambda>e. (from' e, to e)) (dagEdges this) = es
       \<and> (\<forall>i < length es. dagEdges this ! i = \<lparr>from' = fst (es ! i), to = snd (es ! i)\<rparr>)"
  using assms by (simp add: dagEdges_def comp_def case_prod_unfold)

theorem dagEdges_verbatim_witness:
  "Edges example_template = Some [(lit ''coffee'', lit ''sleep quality''), (lit ''age'', lit ''coffee''), (lit ''age'', lit ''coffee'')]
   \<and> length (dagEdges (example_state (Fin 0) (Fin 0) None [])) = 3
   \<and> map (\<lambda>e. (from' e, to e)) (dagEdges (example_state (Fin 0) (Fin 0) None []))
       = [(lit ''coffee'', lit ''sleep quality''), (lit ''age'', lit ''coffee''), (lit ''age'', lit ''coffee'')]
   \<and> dagEdges (example_state (Fin 0) (Fin 0) None []) ! 1 = dagEdges (example_state (Fin 0) (Fin 0) None []) ! 2"
proof -
  have e: "Edges example_template = Some [(lit ''coffee'', lit ''sleep quality''), (lit ''age'', lit ''coffee''), (lit ''age'', lit ''coffee'')]"
    by (simp add: example_template_def)
  note t = dagEdges_verbatim [OF ex_result ex_template e, of "Fin 0" "Fin 0" None "[]"]
  have "dagEdges (example_state (Fin 0) (Fin 0) None []) ! 1 = dagEdges (example_state (Fin 0) (Fin 0) None []) ! 2"
    using t by simp
  then show ?thesis
    using e t by simp
qed

text \<open>
  C9. \<open>dagNodes\<close> and \<open>dagEdges\<close> are functions of the component's \<open>result\<close> alone: two
  states with the same result give the same nodes and the same edges, and neither getter changes
  the state. The positions of the nodes depend on the number of covariates only: two templates
  with equally many covariates are laid out at the same points.
\<close>

theorem layout_deterministic:
  "(result s = result t \<longrightarrow> dagNodes s = dagNodes t \<and> dagEdges s = dagEdges t)
   \<and> (\<forall>r1 r2 t1 t2. result s = Some r1 \<longrightarrow> Template r1 = Some t1 \<longrightarrow>
          result t = Some r2 \<longrightarrow> Template r2 = Some t2 \<longrightarrow>
          length (zlist t1) = length (zlist t2) \<longrightarrow>
          map position (dagNodes s) = map position (dagNodes t))"
proof -
  have a: "dagNodes s = dagNodes t \<and> dagEdges s = dagEdges t" if "result s = result t"
    using that by (simp add: dagNodes_def dagEdges_def)
  have b: "map position (dagNodes s) = map position (dagNodes t)"
    if "result s = Some r1" "Template r1 = Some t1" "result t = Some r2" "Template r2 = Some t2"
      "length (zlist t1) = length (zlist t2)" for r1 r2 t1 t2
    using that by (simp add: positions_dagNodes [of s r1 t1] positions_dagNodes [of t r2 t2])
  show ?thesis
    using a b by blast
qed

theorem layout_deterministic_witness:
  "dagNodes ((example_state (Fin 0) (Fin 0) None [])\<lparr>claim := lit ''tea'', loading := True\<rparr>)
     = dagNodes (example_state (Fin 0) (Fin 0) None [])
   \<and> dagEdges ((example_state (Fin 0) (Fin 0) None [])\<lparr>claim := lit ''tea'', loading := True\<rparr>)
     = dagEdges (example_state (Fin 0) (Fin 0) None [])
   \<and> map position (dagNodes other_state) = map position (dagNodes (example_state (Fin 0) (Fin 0) None []))
   \<and> map id' (dagNodes other_state) \<noteq> map id' (dagNodes (example_state (Fin 0) (Fin 0) None []))"
proof -
  let ?s = "example_state (Fin 0) (Fin 0) None []"
  have same: "result (?s\<lparr>claim := lit ''tea'', loading := True\<rparr>) = result ?s"
    by simp
  have r2: "result other_state = Some ((example_result (Fin 1) (Fin 1) None (lit ''L2''))\<lparr>Template := Some other_template\<rparr>)"
    by (simp add: other_state_def)
  have t2: "Template ((example_result (Fin 1) (Fin 1) None (lit ''L2''))\<lparr>Template := Some other_template\<rparr>) = Some other_template"
    by simp
  have len: "length (zlist other_template) = length (zlist example_template)"
    by (simp add: zlist_def other_template_def example_template_def)
  have a: "dagNodes (?s\<lparr>claim := lit ''tea'', loading := True\<rparr>) = dagNodes ?s
           \<and> dagEdges (?s\<lparr>claim := lit ''tea'', loading := True\<rparr>) = dagEdges ?s"
    using layout_deterministic [of "?s\<lparr>claim := lit ''tea'', loading := True\<rparr>" ?s] same by blast
  have b: "map position (dagNodes other_state) = map position (dagNodes ?s)"
    using layout_deterministic [of other_state ?s] r2 t2 ex_result ex_template len by blast
  have c: "map id' (dagNodes other_state) \<noteq> map id' (dagNodes ?s)"
    by (simp add: dagNodes_eq [OF r2 t2] dagNodes_eq [OF ex_result ex_template]
        other_template_def example_template_def lit_def)
  show ?thesis
    using a b c by simp
qed

section \<open>Ladder rung\<close>

lemma labels_distinct:
  "lit ''L2 '' @ middot @ lit '' Intervention'' \<noteq> lit ''L3 '' @ middot @ lit '' Counterfactual''"
  "lit ''L2 '' @ middot @ lit '' Intervention'' \<noteq> lit ''L1 '' @ middot @ lit '' Association''"
  "lit ''L3 '' @ middot @ lit '' Counterfactual'' \<noteq> lit ''L1 '' @ middot @ lit '' Association''"
  by (simp_all add: lit_def)

lemma classes_distinct:
  "lit ''badge-rung-l2'' \<noteq> lit ''badge-rung-l3''"
  "lit ''badge-rung-l2'' \<noteq> lit ''badge-rung-l1''"
  "lit ''badge-rung-l3'' \<noteq> lit ''badge-rung-l1''"
  by (simp_all add: lit_def)

lemma rungs_distinct: "lit ''L2'' \<noteq> lit ''L3''"
  by (simp add: lit_def)

text \<open>
  C4. The rung \<open>L2\<close> is labelled Intervention and \<open>L3\<close> Counterfactual; any other rung, and
  the state without a result, is labelled Association. \<open>rungClass\<close> decides by the same
  conditions, so the style is that of \<open>l2\<close> exactly when the label is Intervention, that of
  \<open>l3\<close> exactly when it is Counterfactual, and that of \<open>l1\<close> exactly when it is Association.
\<close>

theorem rung_label_class:
  "rungLabel this =
     (if rung_of this = Some (lit ''L2'') then lit ''L2 '' @ middot @ lit '' Intervention''
      else if rung_of this = Some (lit ''L3'') then lit ''L3 '' @ middot @ lit '' Counterfactual''
      else lit ''L1 '' @ middot @ lit '' Association'')
   \<and> rungClass this =
     (if rung_of this = Some (lit ''L2'') then lit ''badge-rung-l2''
      else if rung_of this = Some (lit ''L3'') then lit ''badge-rung-l3''
      else lit ''badge-rung-l1'')
   \<and> (rungClass this = lit ''badge-rung-l2'' \<longleftrightarrow> rungLabel this = lit ''L2 '' @ middot @ lit '' Intervention'')
   \<and> (rungClass this = lit ''badge-rung-l3'' \<longleftrightarrow> rungLabel this = lit ''L3 '' @ middot @ lit '' Counterfactual'')
   \<and> (rungClass this = lit ''badge-rung-l1'' \<longleftrightarrow> rungLabel this = lit ''L1 '' @ middot @ lit '' Association'')"
proof -
  consider (l2) "rung_of this = Some (lit ''L2'')" | (l3) "rung_of this = Some (lit ''L3'')"
    | (other) "rung_of this \<noteq> Some (lit ''L2'')" "rung_of this \<noteq> Some (lit ''L3'')"
    by blast
  then show ?thesis
  proof cases
    case l2
    then have "rungLabel this = lit ''L2 '' @ middot @ lit '' Intervention''"
      and "rungClass this = lit ''badge-rung-l2''"
      by (auto simp: rungLabel_def rungClass_def rung_of_def split: option.splits)
    with l2 show ?thesis
      using labels_distinct classes_distinct by simp
  next
    case l3
    then have "rungLabel this = lit ''L3 '' @ middot @ lit '' Counterfactual''"
      and "rungClass this = lit ''badge-rung-l3''"
      using rungs_distinct by (auto simp: rungLabel_def rungClass_def rung_of_def split: option.splits)
    with l3 show ?thesis
      using labels_distinct classes_distinct rungs_distinct by simp
  next
    case other
    then have "rungLabel this = lit ''L1 '' @ middot @ lit '' Association''"
      and "rungClass this = lit ''badge-rung-l1''"
      by (auto simp: rungLabel_def rungClass_def rung_of_def split: option.splits)
    with other show ?thesis
      using labels_distinct classes_distinct by simp
  qed
qed

theorem rung_label_class_witness:
  "rungLabel (example_state (Fin 0) (Fin 0) None (lit ''L2'')) = lit ''L2 '' @ middot @ lit '' Intervention''
   \<and> rungClass (example_state (Fin 0) (Fin 0) None (lit ''L2'')) = lit ''badge-rung-l2''
   \<and> rungLabel (example_state (Fin 0) (Fin 0) None (lit ''L3'')) = lit ''L3 '' @ middot @ lit '' Counterfactual''
   \<and> rungClass (example_state (Fin 0) (Fin 0) None (lit ''L3'')) = lit ''badge-rung-l3''
   \<and> rungLabel (example_state (Fin 0) (Fin 0) None (lit ''L4'')) = lit ''L1 '' @ middot @ lit '' Association''
   \<and> rungClass (example_state (Fin 0) (Fin 0) None (lit ''L4'')) = lit ''badge-rung-l1''
   \<and> rungLabel initial = lit ''L1 '' @ middot @ lit '' Association''
   \<and> rungClass initial = lit ''badge-rung-l1''"
proof -
  have r: "rung_of (example_state (Fin 0) (Fin 0) None rg) = Some rg" for rg
    by (simp add: rung_of_def example_state_def example_result_def)
  have i: "rung_of initial = None"
    by (simp add: rung_of_def initial_def)
  have d: "lit ''L3'' \<noteq> lit ''L2''" "lit ''L4'' \<noteq> lit ''L2''" "lit ''L4'' \<noteq> lit ''L3''"
    by (simp_all add: lit_def)
  show ?thesis
    using rung_label_class [of "example_state (Fin 0) (Fin 0) None (lit ''L2'')"]
      rung_label_class [of "example_state (Fin 0) (Fin 0) None (lit ''L3'')"]
      rung_label_class [of "example_state (Fin 0) (Fin 0) None (lit ''L4'')"]
      rung_label_class [of initial]
    by (simp add: r i d)
qed

section \<open>Running an analysis\<close>

text \<open>
  C7. When the claim text is empty after trimming, \<open>runAnalysis\<close> only sets the status text:
  it sends no request, and the result, the loading flag, the backend status and every other field
  stay as they were.
\<close>

theorem runAnalysis_empty_claim:
  assumes "trim (claim this) = []"
  shows "runAnalysis this =
           (this\<lparr>statusText := lit ''Please enter a claim before running analysis.''\<rparr>, None)
       \<and> snd (runAnalysis this) = None
       \<and> result (fst (runAnalysis this)) = result this
       \<and> loading (fst (runAnalysis this)) = loading this
       \<and> backendStatus (fst (runAnalysis this)) = backendStatus this"
  using assms by (simp add: runAnalysis_def)

theorem runAnalysis_empty_claim_witness:
  "trim (claim (other_state\<lparr>claim := lit ''  ''\<rparr>)) = []
   \<and> snd (runAnalysis (other_state\<lparr>claim := lit ''  ''\<rparr>)) = None
   \<and> result (fst (runAnalysis (other_state\<lparr>claim := lit ''  ''\<rparr>))) = result other_state
   \<and> statusText (fst (runAnalysis (other_state\<lparr>claim := lit ''  ''\<rparr>)))
       = lit ''Please enter a claim before running analysis.''"
proof -
  have h: "trim (claim (other_state\<lparr>claim := lit ''  ''\<rparr>)) = []"
    by (simp add: trim_def lit_def isWhiteSpace_def)
  show ?thesis
    using h runAnalysis_empty_claim [OF h] by simp
qed

text \<open>
  C8. The error handler of \<open>runAnalysis\<close> leaves the stored result as it was: it changes the
  status text, the backend status and the loading flag and nothing else. That also holds for a
  whole failing run, \<open>runAnalysis\<close> followed by its error handler.
\<close>

theorem runAnalysis_error_keeps_result:
  "result (runAnalysis_error err this) = result this
   \<and> runAnalysis_error err this =
       this\<lparr>statusText := statusText (runAnalysis_error err this),
            backendStatus := backendStatus (runAnalysis_error err this),
            loading := loading (runAnalysis_error err this)\<rparr>
   \<and> statusText (runAnalysis_error err this) = lit ''Error during analysis. Check backend.''
   \<and> backendStatus (runAnalysis_error err this) = lit ''error''
   \<and> loading (runAnalysis_error err this) = False
   \<and> result (runAnalysis_error err (fst (runAnalysis this))) = result this"
  by (simp add: runAnalysis_error_def runAnalysis_def Let_def)

section \<open>The idle state\<close>

text \<open>
  C10. Without a result, \<open>trustPercent\<close> and \<open>confPercent\<close> are both 0, the pair (0, 0) that
  the hint of that state names as the default.
\<close>

theorem idle_percent_zero:
  assumes "result this = None"
  shows "trustPercent this = Fin 0 \<and> confPercent this = Fin 0
       \<and> trustHint this =
           lit ''No sources provided '' @ middot
             @ lit '' T(m, c) defaults to (0, 0) = complete uncertainty.''"
  using assms by (simp add: trustPercent_def confPercent_def trustHint_def)

theorem idle_percent_zero_witness:
  "result initial = None \<and> trustPercent initial = Fin 0 \<and> confPercent initial = Fin 0"
proof -
  have h: "result initial = None"
    by (simp add: initial_def)
  show ?thesis
    using h idle_percent_zero [OF h] by simp
qed

section \<open>Rounding to a double\<close>

lemma two_powi_pos: "0 < (2::rat) powi k"
  by (simp add: zero_less_power_int)

lemma bitlen_bounds_rat:
  assumes "0 < p"
  shows "(2::rat) powi (bitlen p - 1) \<le> of_int p" and "of_int p < (2::rat) powi bitlen p"
proof -
  from assms have ge: "1 \<le> bitlen p"
    using bitlen_eq_zero_iff [of p] bitlen_nonneg [of p] by linarith
  note b = bitlen_bounds [OF assms]
  from b have "(of_int (2 ^ nat (bitlen p - 1)) :: rat) \<le> of_int p"
    by (simp only: of_int_le_iff)
  then show "(2::rat) powi (bitlen p - 1) \<le> of_int p"
    using ge by (simp add: power_int_nonneg_exp)
  from b have "(of_int p :: rat) < of_int (2 ^ nat (bitlen p))"
    by (simp only: of_int_less_iff)
  then show "of_int p < (2::rat) powi bitlen p"
    using ge by (simp add: power_int_nonneg_exp)
qed

lemma ilog2_bounds:
  assumes "0 < a"
  shows "2 powi ilog2 a \<le> a" and "a < 2 powi (ilog2 a + 1)"
proof -
  obtain p q where pq: "quotient_of a = (p, q)"
    by (cases "quotient_of a")
  then have q: "0 < q" and a: "a = of_int p / of_int q"
    by (rule quotient_of_denom_pos, rule quotient_of_div)
  from assms a q have p: "0 < p"
    by (simp add: zero_less_divide_iff)
  define d where "d = bitlen p - bitlen q"
  have qr: "(0::rat) < of_int q"
    using q by simp
  have up: "a < 2 powi (d + 1)"
  proof -
    have "of_int p < (2::rat) powi (d + 1) * 2 powi (bitlen q - 1)"
      using bitlen_bounds_rat(2) [OF p] by (simp add: d_def flip: power_int_add)
    also have "\<dots> \<le> 2 powi (d + 1) * of_int q"
      using bitlen_bounds_rat(1) [OF q] two_powi_pos [of "d + 1"] by (simp add: mult_left_mono)
    finally show ?thesis
      using qr by (simp add: a pos_divide_less_eq)
  qed
  have lo: "2 powi (d - 1) < a"
  proof -
    have "(2::rat) powi (d - 1) * of_int q < 2 powi (d - 1) * 2 powi bitlen q"
      using bitlen_bounds_rat(2) [OF q] two_powi_pos [of "d - 1"] by (simp add: mult_strict_left_mono)
    also have "\<dots> = 2 powi (bitlen p - 1)"
      by (simp add: d_def flip: power_int_add)
    also have "\<dots> \<le> of_int p"
      by (rule bitlen_bounds_rat(1) [OF p])
    finally show ?thesis
      using qr by (simp add: a pos_less_divide_eq)
  qed
  have il: "ilog2 a = (if 2 powi d \<le> a then d else d - 1)"
    by (simp add: ilog2_def pq d_def Let_def)
  show "2 powi ilog2 a \<le> a"
    using lo by (simp add: il)
  show "a < 2 powi (ilog2 a + 1)"
    using up by (simp add: il)
qed

lemma ilog2_eqI:
  assumes "2 powi e \<le> a" and "a < 2 powi (e + 1)"
  shows "ilog2 a = e"
proof -
  have pos: "0 < a"
    using assms(1) two_powi_pos [of e] by linarith
  note b = ilog2_bounds [OF pos]
  have "(2::rat) powi ilog2 a < 2 powi (e + 1)"
    using b(1) assms(2) by linarith
  then have 1: "ilog2 a < e + 1"
    using power_int_increasing [of "e + 1" "ilog2 a" "2::rat"] by (cases "ilog2 a < e + 1") auto
  have "(2::rat) powi e < 2 powi (ilog2 a + 1)"
    using b(2) assms(1) by linarith
  then have 2: "e < ilog2 a + 1"
    using power_int_increasing [of "ilog2 a + 1" e "2::rat"] by (cases "e < ilog2 a + 1") auto
  from 1 2 show ?thesis
    by linarith
qed


lemma roundTiesToEven_of_int: "roundTiesToEven (of_int k) = k"
  by (simp add: roundTiesToEven_def)

lemma round_double_pos:
  assumes "0 < v"
  shows "round_double v =
           (let q = 2 powi (max (ilog2 v) (- 1022) - 52);
                w = of_int (roundTiesToEven (v / q)) * q
            in if 2 ^ 1024 \<le> w then PosInf else Fin w)"
  using assms by (simp add: round_double_def Let_def)





lemma round_double_exact:
  assumes k: "0 < k" "k < 2 ^ 53" and j: "- 1074 \<le> j" and v: "v = of_int k * 2 powi j" "v < 2 ^ 1024"
  shows "round_double v = Fin v"
proof -
  have vpos: "0 < v"
    using k two_powi_pos [of j] by (simp add: v)
  define e where "e = max (ilog2 v) (- 1022)"
  define q :: rat where "q = 2 powi (e - 52)"
  have qpos: "0 < q"
    by (simp add: q_def two_powi_pos)
  have "v < 2 powi (j + 53)"
  proof -
    have "(of_int k :: rat) < of_int (2 ^ 53)"
      using k by (simp only: of_int_less_iff)
    then have "v < 2 ^ 53 * 2 powi j"
      using two_powi_pos [of j] by (simp add: v mult_strict_right_mono)
    then show ?thesis
      by (simp add: power_int_add)
  qed
  with ilog2_bounds(1) [OF vpos] have "(2::rat) powi ilog2 v < 2 powi (j + 53)"
    by linarith
  then have "ilog2 v < j + 53"
    using power_int_increasing [of "j + 53" "ilog2 v" "2::rat"] by (cases "ilog2 v < j + 53") auto
  with j have e: "e \<le> j + 52"
    by (simp add: e_def)
  then have "v / q = of_int (k * 2 ^ nat (j + 52 - e))"
    by (simp add: v q_def power_int_diff flip: power_int_nonneg_exp) (simp add: power_int_diff power_int_add)
  then have "of_int (roundTiesToEven (v / q)) * q = v"
    using qpos by (simp only: roundTiesToEven_of_int) (simp add: field_simps)
  then show ?thesis
    using v(2) by (simp add: round_double_pos [OF vpos] Let_def flip: q_def e_def)
qed

section \<open>Percentages\<close>



lemma floor_half: "\<lfloor>1 / 2 :: rat\<rfloor> = 0"
  by (simp add: floor_eq_iff)

lemma Math_round_of_int: "Math_round (Fin (of_int k)) = Fin (of_int k)"
  by (simp add: floor_half)









section \<open>Printing with two decimal places\<close>

lemma dec_small: "n < 10 \<Longrightarrow> dec n = [digit n]"
  by (subst dec.simps) simp

lemma dec_step: "10 \<le> n \<Longrightarrow> dec n = dec (n div 10) @ [digit (n mod 10)]"
  by (subst dec.simps) simp

lemma dec_two: "10 \<le> n \<Longrightarrow> n < 100 \<Longrightarrow> dec n = [digit (n div 10), digit (n mod 10)]"
  by (simp add: dec_step dec_small)

lemma dec_large:
  assumes "100 \<le> n"
  shows "dec n = dec (n div 100) @ [digit (n div 10 mod 10), digit (n mod 10)]"
proof -
  have "10 \<le> n div 10"
    using assms by simp
  moreover have "n div 10 div 10 = n div 100"
    by (simp add: div_mult2_eq [symmetric])
  ultimately show ?thesis
    using assms by (simp add: dec_step [of n] dec_step [of "n div 10"])
qed

lemma dec_nonempty: "dec n \<noteq> []"
  by (subst dec.simps) simp

lemma unat_digit: "d < 10 \<Longrightarrow> unat (digit d - 0x30) = d"
  by (simp add: digit_def unat_of_nat)

text \<open>\<open>dec\<close> prints a number in decimal digits: reading them back gives the number.\<close>

lemma digits_value_dec: "digits_value (dec n) = n"
proof (induction n rule: dec.induct)
  case (1 n)
  show ?case
  proof (cases "n < 10")
    case True
    then show ?thesis
      by (simp add: dec_small digits_value_def unat_digit)
  next
    case False
    then have "digits_value (dec n) = 10 * digits_value (dec (n div 10)) + n mod 10"
      by (simp add: dec_step digits_value_def unat_digit)
    with False 1 show ?thesis
      by simp
  qed
qed

lemma place_point_1: "place_point 2 [a] = [digit 0] @ lit ''.'' @ [digit 0, a]"
  by (simp add: place_point_def numeral_2_eq_2)

lemma place_point_2: "place_point 2 [a, b] = [digit 0] @ lit ''.'' @ [a, b]"
  by (simp add: place_point_def)

lemma place_point_3: "as \<noteq> [] \<Longrightarrow> place_point 2 (as @ [a, b]) = as @ lit ''.'' @ [a, b]"
  by (simp add: place_point_def Let_def)

lemma toFixed_two_places:
  assumes "\<bar>v\<bar> < 10 ^ 21"
  shows "toFixed (Fin v) 2 = two_places v"
proof -
  define n where "n = nat \<lfloor>\<bar>v\<bar> * 100 + 1 / 2\<rfloor>"
  have split: "place_point 2 (dec n) = dec (n div 100) @ lit ''.'' @ [digit (n div 10 mod 10), digit (n mod 10)]"
  proof -
    consider "n < 10" | "10 \<le> n" "n < 100" | "100 \<le> n"
      by linarith
    then show ?thesis
    proof cases
      case 1
      then show ?thesis
        by (simp add: dec_small place_point_1)
    next
      case 2
      then have "n div 100 = 0"
        by simp
      with 2 show ?thesis
        by (simp add: dec_two place_point_2 dec_small [of 0])
    next
      case 3
      then show ?thesis
        using place_point_3 [OF dec_nonempty] by (simp add: dec_large)
    qed
  qed
  have "toFixed (Fin v) 2 = (if v < 0 then lit ''-'' else []) @ place_point 2 (dec n)"
    using assms by (simp add: toFixed_def Let_def n_def)
  then show ?thesis
    using split by (simp add: two_places_def Let_def n_def)
qed

lemma two_places_examples:
  "two_places (1 / 2) = lit ''0.50''" "two_places (3 / 4) = lit ''0.75''"
  "two_places (- 1 / 1024) = lit ''-0.00''" "two_places (1 / 8) = lit ''0.13''"
proof -
  have f: "\<lfloor>101 / 2 :: rat\<rfloor> = 50" "\<lfloor>151 / 2 :: rat\<rfloor> = 75" "\<lfloor>153 / 256 :: rat\<rfloor> = 0"
    "\<lfloor>13 :: rat\<rfloor> = 13"
    by (simp_all add: floor_eq_iff)
  have d: "dec 0 = [digit 0]"
    by (simp add: dec_small)
  show "two_places (1 / 2) = lit ''0.50''"
    by (simp add: two_places_def f d digit_def lit_def)
  show "two_places (3 / 4) = lit ''0.75''"
    by (simp add: two_places_def f d digit_def lit_def)
  show "two_places (- 1 / 1024) = lit ''-0.00''"
    by (simp add: two_places_def f d digit_def lit_def)
  show "two_places (1 / 8) = lit ''0.13''"
    by (simp add: two_places_def f d digit_def lit_def)
qed

lemma is_digit_digit: "d < 10 \<Longrightarrow> is_digit (digit d)"
proof -
  assume "d < 10"
  then have "d = 0 \<or> d = 1 \<or> d = 2 \<or> d = 3 \<or> d = 4 \<or> d = 5 \<or> d = 6 \<or> d = 7 \<or> d = 8 \<or> d = 9"
    by presburger
  then show ?thesis
    by (elim disjE) (simp_all add: is_digit_def digit_def)
qed

lemma dec_digits: "list_all is_digit (dec n)"
proof (induction n rule: dec.induct)
  case (1 n)
  show ?case
  proof (cases "n < 10")
    case True
    then show ?thesis
      by (simp add: dec_small is_digit_digit)
  next
    case False
    then show ?thesis
      using 1 by (simp add: dec_step is_digit_digit)
  qed
qed

lemma two_decimals_two_places: "two_decimals (two_places v)"
proof -
  define n where "n = nat \<lfloor>\<bar>v\<bar> * 100 + 1 / 2\<rfloor>"
  define body where "body = dec (n div 100) @ lit ''.'' @ [digit (n div 10 mod 10), digit (n mod 10)]"
  have hd: "\<not> (body \<noteq> [] \<and> hd body = 0x2D)"
    using dec_digits [of "n div 100"] dec_nonempty [of "n div 100"]
    by (cases "dec (n div 100)") (auto simp: body_def is_digit_def)
  have shape: "4 \<le> length body \<and> body ! (length body - 3) = 0x2E
      \<and> list_all is_digit (take (length body - 3) body)
      \<and> list_all is_digit (drop (length body - 2) body)"
    using dec_digits [of "n div 100"] dec_nonempty [of "n div 100"]
    by (cases "dec (n div 100)") (simp_all add: body_def lit_def nth_append is_digit_digit)
  have tp: "two_places v = (if v < 0 then lit ''-'' else []) @ body"
    by (simp add: two_places_def body_def n_def Let_def)
  show ?thesis
  proof (cases "v < 0")
    case True
    then have "two_places v = 0x2D # body"
      by (simp add: tp lit_def)
    then show ?thesis
      using shape by (simp add: two_decimals_def Let_def)
  next
    case False
    then have "two_places v = body"
      by (simp add: tp)
    then show ?thesis
      using shape hd by (auto simp: two_decimals_def Let_def)
  qed
qed

section \<open>Printing in exponent notation\<close>

lemma dec_length: "10 ^ j \<le> n \<Longrightarrow> j < length (dec n)"
proof (induction j arbitrary: n)
  case 0
  then show ?case
    using dec_nonempty [of n] by (cases "dec n") simp_all
next
  case (Suc j)
  have "(10::nat) = 10 * 1"
    by simp
  also have "\<dots> \<le> 10 * 10 ^ j"
    by (rule mult_le_mono2) simp
  also have "\<dots> \<le> n"
    using Suc.prems by simp
  finally have "10 \<le> n" .
  moreover from Suc.prems have "10 ^ j \<le> n div 10"
    by (simp add: less_eq_div_iff_mult_less_eq mult.commute)
  ultimately show ?case
    using Suc.IH [of "n div 10"] by (simp add: dec_step)
qed

lemma Number_toString_shape:
  "\<exists>A e. Number_toString v = A @ lit ''e+'' @ dec e \<and> A \<noteq> [] \<and> is_digit (hd A)
          \<and> length (dec (nat \<lfloor>v\<rfloor>)) - 1 \<le> e"
proof -
  obtain k s0 where ks: "shortest_digits v (length (dec (nat \<lfloor>v\<rfloor>))) [1..<18] = (k, s0)"
    by (cases "shortest_digits v (length (dec (nat \<lfloor>v\<rfloor>))) [1..<18]")
  define n0 where "n0 = length (dec (nat \<lfloor>v\<rfloor>))"
  define n where "n = (if s0 = 10 ^ k then n0 + 1 else n0)"
  define ds where "ds = dec (if s0 = 10 ^ k then 10 ^ (k - 1) else s0)"
  define A where "A = (if k = 1 then ds else take 1 ds @ lit ''.'' @ drop 1 ds)"
  have eq: "Number_toString v = A @ lit ''e+'' @ dec (n - 1)"
    using ks by (simp add: Number_toString_def Let_def A_def ds_def n_def n0_def)
  have ne: "ds \<noteq> []" and dg: "list_all is_digit ds"
    by (simp_all add: ds_def dec_nonempty dec_digits)
  then have "A \<noteq> []" and "is_digit (hd A)"
    by (cases ds; simp add: A_def)+
  moreover have "n0 - 1 \<le> n - 1"
    by (simp add: n_def)
  ultimately show ?thesis
    using eq unfolding n0_def by blast
qed

lemma exponent_not_two_decimals:
  assumes A: "A \<noteq> []" "is_digit (hd A)" and ds: "2 \<le> length ds" "list_all is_digit ds"
    and sg: "sg = [] \<or> sg = lit ''-''"
  shows "\<not> two_decimals (sg @ A @ lit ''e+'' @ ds)"
proof -
  define B where "B = A @ lit ''e+''"
  define t where "t = B @ ds"
  have hdA: "hd A \<noteq> 0x2D"
    using A(2) by (auto simp: is_digit_def)
  have strip: "(if sg @ A @ lit ''e+'' @ ds \<noteq> [] \<and> hd (sg @ A @ lit ''e+'' @ ds) = 0x2D
                then tl (sg @ A @ lit ''e+'' @ ds) else sg @ A @ lit ''e+'' @ ds) = t"
    using sg A(1) hdA by (auto simp: t_def B_def lit_def)
  have lenB: "2 \<le> length B" and lastB: "B ! (length B - 1) = 0x2B"
    by (simp_all add: B_def lit_def nth_append)
  have "t ! (length t - 3) \<noteq> 0x2E"
  proof (cases "length ds = 2")
    case True
    then have "length t - 3 = length B - 1"
      using lenB by (simp add: t_def)
    moreover have "length B - 1 < length B"
      using lenB by simp
    ultimately have "t ! (length t - 3) = 0x2B"
      using lastB by (simp add: t_def nth_append)
    then show ?thesis
      by simp
  next
    case False
    with ds(1) have l: "3 \<le> length ds"
      by simp
    then have "length t - 3 = length B + (length ds - 3)"
      by (simp add: t_def)
    then have "t ! (length t - 3) = ds ! (length ds - 3)"
      by (simp add: t_def nth_append)
    moreover have "is_digit (ds ! (length ds - 3))"
      using ds(2) l by (simp add: list_all_length)
    ultimately show ?thesis
      by (auto simp: is_digit_def)
  qed
  then show ?thesis
    unfolding two_decimals_def strip Let_def by simp
qed

lemma toFixed_large:
  assumes "10 ^ 21 \<le> \<bar>v\<bar>"
  shows "\<not> two_decimals (toFixed (Fin v) f)"
proof -
  obtain A e where sh: "Number_toString \<bar>v\<bar> = A @ lit ''e+'' @ dec e" "A \<noteq> []" "is_digit (hd A)"
    "length (dec (nat \<lfloor>\<bar>v\<bar>\<rfloor>)) - 1 \<le> e"
    using Number_toString_shape [of "\<bar>v\<bar>"] by blast
  have "(10 ^ 21 :: int) \<le> \<lfloor>\<bar>v\<bar>\<rfloor>"
    using assms by (simp add: le_floor_iff)
  then have "(10 ^ 21 :: nat) \<le> nat \<lfloor>\<bar>v\<bar>\<rfloor>"
    by (simp add: le_nat_iff)
  then have "21 < length (dec (nat \<lfloor>\<bar>v\<bar>\<rfloor>))"
    by (rule dec_length)
  with sh(4) have "10 ^ 1 \<le> e"
    by simp
  then have "1 < length (dec e)"
    by (rule dec_length)
  then have "2 \<le> length (dec e)"
    by simp
  from exponent_not_two_decimals [OF sh(2,3) this dec_digits, of "if v < 0 then lit ''-'' else []"]
  show ?thesis
    using assms by (simp add: toFixed_def Let_def sh(1) split: if_splits)
qed

lemma dec_length_eq: "10 ^ j \<le> n \<Longrightarrow> n < 10 ^ Suc j \<Longrightarrow> length (dec n) = Suc j"
proof (induction j arbitrary: n)
  case 0
  then show ?case
    by (simp add: dec_small)
next
  case (Suc j)
  have "(10::nat) = 10 * 1"
    by simp
  also have "\<dots> \<le> 10 * 10 ^ j"
    by (rule mult_le_mono2) simp
  also have "\<dots> \<le> n"
    using Suc.prems by simp
  finally have "10 \<le> n" .
  moreover from Suc.prems have "10 ^ j \<le> n div 10"
    by (simp add: less_eq_div_iff_mult_less_eq mult.commute)
  moreover from Suc.prems have "n div 10 < 10 ^ Suc j"
    by (simp add: div_less_iff_less_mult mult.commute)
  ultimately show ?case
    using Suc.IH [of "n div 10"] by (simp add: dec_step)
qed

lemma round_double_1e21:
  "round_double (10 ^ 21) = Fin (10 ^ 21)" "round_double (2 * 10 ^ 21) \<noteq> Fin (10 ^ 21)"
proof -
  show "round_double (10 ^ 21) = Fin (10 ^ 21)"
    by (rule round_double_exact [of "5 ^ 21" 21]) simp_all
  have "round_double (2 * 10 ^ 21) = Fin (2 * 10 ^ 21)"
    by (rule round_double_exact [of "5 ^ 21" 22]) simp_all
  then show "round_double (2 * 10 ^ 21) \<noteq> Fin (10 ^ 21)"
    by simp
qed

lemma Number_toString_eval:
  assumes "length (dec (nat \<lfloor>v\<rfloor>)) = n0" and "shortest_digits v n0 [1..<18] = (k, s0)"
  shows "Number_toString v =
           (if k = 1 then dec (if s0 = 10 ^ k then 10 ^ (k - 1) else s0)
            else take 1 (dec (if s0 = 10 ^ k then 10 ^ (k - 1) else s0)) @ lit ''.''
                   @ drop 1 (dec (if s0 = 10 ^ k then 10 ^ (k - 1) else s0)))
           @ lit ''e+'' @ dec ((if s0 = 10 ^ k then n0 + 1 else n0) - 1)"
  using assms by (simp add: Number_toString_def Let_def)

lemma toFixed_big:
  "10 ^ 21 \<le> \<bar>v\<bar> \<Longrightarrow> toFixed (Fin v) f = (if v < 0 then lit ''-'' else []) @ Number_toString \<bar>v\<bar>"
  by (simp add: toFixed_def Let_def)

lemma Number_toString_1e21: "Number_toString (10 ^ 21) = lit ''1e+21''"
proof -
  have "length (dec (10 ^ 21)) = Suc 21"
    by (rule dec_length_eq) simp_all
  then have n0: "length (dec (nat \<lfloor>10 ^ 21 :: rat\<rfloor>)) = 22"
    by simp
  have nd: "nearest_digits (10 ^ 21) 22 1 = Some 1"
    using round_double_1e21 by (simp add: nearest_digits_def Let_def)
  have "[1..<18] = 1 # [2..<18]"
    by (simp add: upt_rec)
  then have sd: "shortest_digits (10 ^ 21) 22 [1..<18] = (1, 1)"
    using nd by simp
  have d: "dec (Suc 0) = [digit 1]" "dec 21 = [digit 2, digit 1]"
    by (simp_all add: dec_small dec_two)
  show ?thesis
    unfolding Number_toString_eval [OF n0 sd] by (simp add: d digit_def lit_def)
qed

lemma toFixed_1e21: "toFixed (Fin (10 ^ 21)) 2 = lit ''1e+21''"
  using toFixed_big [of "10 ^ 21" 2] Number_toString_1e21 by simp

section \<open>The trust hint\<close>

lemma hint_messages_distinct:
  "lit ''No sources provided '' @ middot @ lit '' T(m, c) defaults to (0, 0) = complete uncertainty.''
   \<noteq> lit ''No sources provided '' @ middot @ lit '' T(m, c) = (0, 0) '' @ rarrow
       @ lit '' complete uncertainty about evidence.''"
  by (simp add: lit_def)

lemma toFixed_two_decimals_iff:
  "two_decimals (toFixed v 2) \<longleftrightarrow> (\<exists>a. v = Fin a \<and> \<bar>a\<bar> < 10 ^ 21)"
proof (cases v)
  case NaN
  then show ?thesis
    by (simp add: toFixed_def two_decimals_def lit_def is_digit_def)
next
  case PosInf
  then show ?thesis
    by (simp add: toFixed_def two_decimals_def lit_def is_digit_def)
next
  case NegInf
  then show ?thesis
    by (simp add: toFixed_def two_decimals_def lit_def is_digit_def)
next
  case (Fin a)
  show ?thesis
  proof (cases "\<bar>a\<bar> < 10 ^ 21")
    case True
    then show ?thesis
      using Fin by (simp add: toFixed_two_places two_decimals_two_places)
  next
    case False
    then have "10 ^ 21 \<le> \<bar>a\<bar>"
      by simp
    from toFixed_large [OF this, of 2] show ?thesis
      using Fin False by simp
  qed
qed

lemma toFixed_exponent:
  assumes "10 ^ 21 \<le> \<bar>a\<bar>"
  shows "\<exists>A e. toFixed (Fin a) 2 = A @ lit ''e+'' @ dec e"
proof -
  obtain A e where "Number_toString \<bar>a\<bar> = A @ lit ''e+'' @ dec e"
    using Number_toString_shape [of "\<bar>a\<bar>"] by blast
  then have "toFixed (Fin a) 2 = ((if a < 0 then lit ''-'' else []) @ A) @ lit ''e+'' @ dec e"
    by (simp add: toFixed_big [OF assms])
  then show ?thesis
    by blast
qed

text \<open>
  C2, as the code has it. \<open>trustHint\<close> has three branches. Without a result it returns the
  default message, which says that the trust defaults to (0, 0). With a result whose aggregated
  trust is exactly (0, 0) and whose details contain "no sources" it returns the message of
  complete uncertainty, which differs from the default one. With any other result it returns
  "Aggregated trust T(m, c) = (" followed by \<open>m.toFixed(2)\<close>, ", ", \<open>c.toFixed(2)\<close>, ") ", a middle
  dot, a space and the details, which are the empty string when there are none. In that string
  \<open>m\<close> and \<open>c\<close> stand rounded to exactly two decimal places exactly when they are finite and of
  magnitude below \<open>10^21\<close>. A finite value of magnitude \<open>10^21\<close> or more is printed in exponent
  notation, \<open>10^21\<close> itself as \<open>1e+21\<close>, and a value that is not finite as \<open>Infinity\<close>,
  \<open>-Infinity\<close> or \<open>NaN\<close>.
\<close>

theorem trustHint_branches:
  "(result this = None \<longrightarrow>
      trustHint this =
        lit ''No sources provided '' @ middot
          @ lit '' T(m, c) defaults to (0, 0) = complete uncertainty.'')
   \<and> (\<forall>r. result this = Some r \<longrightarrow>
          trustHint this =
            (if no_sources (AggregatedTrust r)
             then lit ''No sources provided '' @ middot @ lit '' T(m, c) = (0, 0) '' @ rarrow
                    @ lit '' complete uncertainty about evidence.''
             else lit ''Aggregated trust T(m, c) = ('' @ toFixed (m (AggregatedTrust r)) 2
                    @ lit '', '' @ toFixed (c (AggregatedTrust r)) 2 @ lit '') '' @ middot
                    @ lit '' '' @ details_text (AggregatedTrust r)))
   \<and> (\<forall>r a b. result this = Some r \<longrightarrow> \<not> no_sources (AggregatedTrust r) \<longrightarrow>
          m (AggregatedTrust r) = Fin a \<longrightarrow> c (AggregatedTrust r) = Fin b \<longrightarrow>
          \<bar>a\<bar> < 10 ^ 21 \<longrightarrow> \<bar>b\<bar> < 10 ^ 21 \<longrightarrow>
          trustHint this =
            lit ''Aggregated trust T(m, c) = ('' @ two_places a @ lit '', '' @ two_places b
              @ lit '') '' @ middot @ lit '' '' @ details_text (AggregatedTrust r)
          \<and> two_decimals (two_places a) \<and> two_decimals (two_places b))
   \<and> (\<forall>v. two_decimals (toFixed v 2) \<longleftrightarrow> (\<exists>a. v = Fin a \<and> \<bar>a\<bar> < 10 ^ 21))
   \<and> (\<forall>a. 10 ^ 21 \<le> \<bar>a\<bar> \<longrightarrow> (\<exists>A e. toFixed (Fin a) 2 = A @ lit ''e+'' @ dec e))
   \<and> toFixed (Fin (10 ^ 21)) 2 = lit ''1e+21''
   \<and> toFixed PosInf 2 = lit ''Infinity'' \<and> toFixed NegInf 2 = lit ''-Infinity''
   \<and> toFixed NaN 2 = lit ''NaN''
   \<and> lit ''No sources provided '' @ middot @ lit '' T(m, c) defaults to (0, 0) = complete uncertainty.''
       \<noteq> lit ''No sources provided '' @ middot @ lit '' T(m, c) = (0, 0) '' @ rarrow
           @ lit '' complete uncertainty about evidence.''"
proof -
  have idle: "trustHint this =
        lit ''No sources provided '' @ middot
          @ lit '' T(m, c) defaults to (0, 0) = complete uncertainty.''"
    if "result this = None"
    using that by (simp add: trustHint_def)
  have some: "trustHint this =
            (if no_sources (AggregatedTrust r)
             then lit ''No sources provided '' @ middot @ lit '' T(m, c) = (0, 0) '' @ rarrow
                    @ lit '' complete uncertainty about evidence.''
             else lit ''Aggregated trust T(m, c) = ('' @ toFixed (m (AggregatedTrust r)) 2
                    @ lit '', '' @ toFixed (c (AggregatedTrust r)) 2 @ lit '') '' @ middot
                    @ lit '' '' @ details_text (AggregatedTrust r))"
    if "result this = Some r" for r
    using that by (simp add: trustHint_def no_sources_def details_text_def Let_def)
  have fin: "trustHint this =
            lit ''Aggregated trust T(m, c) = ('' @ two_places a @ lit '', '' @ two_places b
              @ lit '') '' @ middot @ lit '' '' @ details_text (AggregatedTrust r)
          \<and> two_decimals (two_places a) \<and> two_decimals (two_places b)"
    if "result this = Some r" "\<not> no_sources (AggregatedTrust r)"
      "m (AggregatedTrust r) = Fin a" "c (AggregatedTrust r) = Fin b"
      "\<bar>a\<bar> < 10 ^ 21" "\<bar>b\<bar> < 10 ^ 21" for r a b
    using that some [OF that(1)]
    by (simp add: toFixed_two_places two_decimals_two_places)
  have nf: "toFixed PosInf 2 = lit ''Infinity''" "toFixed NegInf 2 = lit ''-Infinity''"
    "toFixed NaN 2 = lit ''NaN''"
    by (simp_all add: toFixed_def)
  show ?thesis
    using idle some fin toFixed_two_decimals_iff toFixed_exponent toFixed_1e21 nf
      hint_messages_distinct
    by blast
qed

lemma includes_example: "includes' (lit ''no sources given'') (lit ''no sources'')"
  by (simp add: includes'_def lit_def sublist_Cons_right)

theorem trustHint_branches_witness:
  "trustHint initial =
       lit ''No sources provided '' @ middot @ lit '' T(m, c) defaults to (0, 0) = complete uncertainty.''
   \<and> trustHint (example_state (Fin 0) (Fin 0) (Some (lit ''no sources given'')) []) =
       lit ''No sources provided '' @ middot @ lit '' T(m, c) = (0, 0) '' @ rarrow
         @ lit '' complete uncertainty about evidence.''
   \<and> trustHint (example_state (Fin (3 / 4)) (Fin (1 / 2)) (Some (lit ''2 sources'')) []) =
       lit ''Aggregated trust T(m, c) = (0.75, 0.50) '' @ middot @ lit '' 2 sources''
   \<and> trustHint (example_state (Fin 0) (Fin 0) None []) =
       lit ''Aggregated trust T(m, c) = (0.00, 0.00) '' @ middot @ lit '' ''
   \<and> two_decimals (toFixed (Fin (3 / 4)) 2)"
proof -
  have i: "result initial = None"
    by (simp add: initial_def)
  have a: "no_sources (AggregatedTrust (example_result (Fin 0) (Fin 0) (Some (lit ''no sources given'')) []))"
    using includes_example by (simp add: no_sources_def details_text_def example_result_def)
  have b: "\<not> no_sources (AggregatedTrust (example_result (Fin (3 / 4)) (Fin (1 / 2)) (Some (lit ''2 sources'')) []))"
    by (simp add: no_sources_def example_result_def)
  have c0: "\<not> no_sources (AggregatedTrust (example_result (Fin 0) (Fin 0) None []))"
    by (simp add: no_sources_def details_text_def example_result_def includes'_def lit_def)
  have z: "two_places 0 = lit ''0.00''"
    by (simp add: two_places_def floor_half dec_small digit_def lit_def)
  have 1: "trustHint initial =
     lit ''No sources provided '' @ middot @ lit '' T(m, c) defaults to (0, 0) = complete uncertainty.''"
    using trustHint_branches [of initial] i by blast
  have 2: "trustHint (example_state (Fin 0) (Fin 0) (Some (lit ''no sources given'')) []) =
       lit ''No sources provided '' @ middot @ lit '' T(m, c) = (0, 0) '' @ rarrow
         @ lit '' complete uncertainty about evidence.''"
    using trustHint_branches [of "example_state (Fin 0) (Fin 0) (Some (lit ''no sources given'')) []"]
      ex_result a by simp
  have 3: "trustHint (example_state (Fin (3 / 4)) (Fin (1 / 2)) (Some (lit ''2 sources'')) []) =
       lit ''Aggregated trust T(m, c) = ('' @ two_places (3 / 4) @ lit '', '' @ two_places (1 / 2)
         @ lit '') '' @ middot @ lit '' '' @ lit ''2 sources''"
    using trustHint_branches [of "example_state (Fin (3 / 4)) (Fin (1 / 2)) (Some (lit ''2 sources'')) []",
        THEN conjunct2, THEN conjunct2, THEN conjunct1, rule_format,
        of "example_result (Fin (3 / 4)) (Fin (1 / 2)) (Some (lit ''2 sources'')) []" "3 / 4" "1 / 2"]
      ex_result b by (simp add: example_result_def details_text_def)
  have 4: "trustHint (example_state (Fin 0) (Fin 0) None []) =
       lit ''Aggregated trust T(m, c) = ('' @ two_places 0 @ lit '', '' @ two_places 0
         @ lit '') '' @ middot @ lit '' ''"
    using trustHint_branches [of "example_state (Fin 0) (Fin 0) None []",
        THEN conjunct2, THEN conjunct2, THEN conjunct1, rule_format,
        of "example_result (Fin 0) (Fin 0) None []" 0 0]
      ex_result c0 by (simp add: example_result_def details_text_def)
  have "\<exists>a. Fin (3 / 4) = Fin a \<and> \<bar>a\<bar> < 10 ^ 21"
    by (intro exI [of _ "3 / 4"]) simp
  then have 5: "two_decimals (toFixed (Fin (3 / 4)) 2)"
    using trustHint_branches [of initial, THEN conjunct2, THEN conjunct2, THEN conjunct2,
        THEN conjunct1, rule_format, of "Fin (3 / 4)"]
    by blast
  show ?thesis
    using 1 2 3 4 5 by (simp add: two_places_examples z lit_def)
qed

text \<open>
  C2 says that every result of the third branch shows \<open>m\<close> and \<open>c\<close> with two decimal places.
  The double \<open>10^21\<close> as \<open>m\<close> gives a result of the third branch, and its hint shows \<open>m\<close> as
  \<open>1e+21\<close>.
\<close>

theorem trustHint_exponent_counterexample:
  "round_double (10 ^ 21) = Fin (10 ^ 21)
   \<and> \<not> no_sources (AggregatedTrust (example_result (Fin (10 ^ 21)) (Fin (1 / 2)) None []))
   \<and> toFixed (m (AggregatedTrust (example_result (Fin (10 ^ 21)) (Fin (1 / 2)) None []))) 2 = lit ''1e+21''
   \<and> \<not> two_decimals (lit ''1e+21'')
   \<and> trustHint (example_state (Fin (10 ^ 21)) (Fin (1 / 2)) None []) =
         lit ''Aggregated trust T(m, c) = (1e+21, 0.50) '' @ middot @ lit '' ''"
proof -
  have a: "toFixed (m (AggregatedTrust (example_result (Fin (10 ^ 21)) (Fin (1 / 2)) None []))) 2 = lit ''1e+21''"
    using toFixed_1e21 by (simp add: example_result_def)
  have b: "\<not> two_decimals (lit ''1e+21'')"
    by (simp add: two_decimals_def lit_def is_digit_def)
  have n: "\<not> no_sources (AggregatedTrust (example_result (Fin (10 ^ 21)) (Fin (1 / 2)) None []))"
    by (simp add: no_sources_def example_result_def)
  have h: "toFixed (Fin (1 / 2)) 2 = lit ''0.50''"
    by (simp add: toFixed_two_places two_places_examples)
  have c: "trustHint (example_state (Fin (10 ^ 21)) (Fin (1 / 2)) None []) =
         lit ''Aggregated trust T(m, c) = (1e+21, 0.50) '' @ middot @ lit '' ''"
    using toFixed_1e21 h
    by (simp add: trustHint_def example_state_def example_result_def lit_def)
  show ?thesis
    using round_double_1e21(1) a b n c by blast
qed

end
